theory Spec2Isabelle
  imports Main
begin

section \<open>Document values\<close>

text \<open>
  The converter works on the parsed form of a JSON or YAML document.  A value is
  \<open>undefined\<close>, \<open>null\<close>, a boolean, a number, a string, an array or an object.
  Objects keep their own properties as an association list in insertion order, which is the
  order \<open>Object.keys\<close> and \<open>for ... in\<close> report for keys that are not array
  indices.  An array carries its elements and, separately, the named properties that
  JavaScript allows to be stored on an array object.

  Limits of the model: numbers are integers; strings are lists of characters; only own
  properties are looked up (members inherited from a prototype, such as \<open>toString\<close>,
  read as \<open>undefined\<close>); integer-like keys of an object are kept in insertion order.
\<close>

datatype jv =
    JUndef
  | JNull
  | JBool bool
  | JNum int
  | JStr string
  | JArr "jv list" "(string \<times> jv) list"
  | JObj "(string \<times> jv) list"

datatype js_error =
    TypeError
  | RangeError
  | ExternalRefError

text \<open>Sequencing of steps that may throw: the first error ends the run.\<close>

definition bindE :: "'e + 'a \<Rightarrow> ('a \<Rightarrow> 'e + 'b) \<Rightarrow> 'e + 'b" where
  "bindE m f = (case m of Inl e \<Rightarrow> Inl e | Inr x \<Rightarrow> f x)"

text \<open>JavaScript truthiness: \<open>!v\<close> is the negation of this.\<close>

fun truthy :: "jv \<Rightarrow> bool" where
  "truthy JUndef = False"
| "truthy JNull = False"
| "truthy (JBool b) = b"
| "truthy (JNum n) = (n \<noteq> 0)"
| "truthy (JStr s) = (s \<noteq> [])"
| "truthy (JArr xs ps) = True"
| "truthy (JObj kvs) = True"

text \<open>\<open>typeof v === "object"\<close>; note that it holds for \<open>null\<close> and for arrays.\<close>

fun typeof_object :: "jv \<Rightarrow> bool" where
  "typeof_object JNull = True"
| "typeof_object (JArr xs ps) = True"
| "typeof_object (JObj kvs) = True"
| "typeof_object v = False"


text \<open>\<open>a || b\<close> on values.\<close>

definition js_or :: "jv \<Rightarrow> jv \<Rightarrow> jv" where
  "js_or a b = (if truthy a then a else b)"

subsection \<open>Strings\<close>

definition starts_with :: "string \<Rightarrow> string \<Rightarrow> bool" where
  "starts_with p s = (take (length p) s = p)"

fun split_on :: "char \<Rightarrow> string \<Rightarrow> string list" where
  "split_on c [] = [[]]"
| "split_on c (x # xs) =
     (if x = c then [] # split_on c xs
      else (case split_on c xs of [] \<Rightarrow> [[x]] | w # ws \<Rightarrow> (x # w) # ws))"

text \<open>Replace every occurrence of the two-character pattern \<open>ab\<close>, left to right.\<close>

fun replace2 :: "char \<Rightarrow> char \<Rightarrow> string \<Rightarrow> string \<Rightarrow> string" where
  "replace2 a b rep (x # y # xs) =
     (if x = a \<and> y = b then rep @ replace2 a b rep xs
      else x # replace2 a b rep (y # xs))"
| "replace2 a b rep xs = xs"

text \<open>\<open>key.replace(/~1/g, "/").replace(/~0/g, "~")\<close>\<close>

definition unescape_pointer :: "string \<Rightarrow> string" where
  "unescape_pointer key =
     replace2 (CHR ''~'') (CHR ''0'') ''~'' (replace2 (CHR ''~'') (CHR ''1'') ''/'' key)"

definition is_digit :: "char \<Rightarrow> bool" where
  "is_digit c = (c \<in> set ''0123456789'')"

definition digit_val :: "char \<Rightarrow> nat" where
  "digit_val c = of_char c - 48"

text \<open>
  A property key is an array index when it is the canonical decimal form of a natural
  number: \<open>"0"\<close>, or digits without a leading zero.
\<close>

definition parse_index :: "string \<Rightarrow> nat option" where
  "parse_index k =
     (if k = [] \<or> \<not> list_all is_digit k \<or> (hd k = CHR ''0'' \<and> length k > 1) then None
      else Some (foldl (\<lambda>n c. 10 * n + digit_val c) 0 k))"

text \<open>The decimal form of a natural number, as in \<open>String(n)\<close>.\<close>

definition digit_char :: "nat \<Rightarrow> char" where
  "digit_char d = ''0123456789'' ! d"

function show_nat :: "nat \<Rightarrow> string" where
  "show_nat n = (if n < 10 then [digit_char n] else show_nat (n div 10) @ [digit_char (n mod 10)])"
  by pat_completeness auto
termination
  by (relation "measure id") auto

declare show_nat.simps [simp del]

subsection \<open>Properties\<close>

text \<open>Storing an own property: an existing key keeps its place, a new key goes last.\<close>

fun upd :: "string \<Rightarrow> 'a \<Rightarrow> (string \<times> 'a) list \<Rightarrow> (string \<times> 'a) list" where
  "upd k v [] = [(k, v)]"
| "upd k v ((k', v') # kvs) = (if k' = k then (k, v) # kvs else (k', v') # upd k v kvs)"

definition del :: "string \<Rightarrow> (string \<times> 'a) list \<Rightarrow> (string \<times> 'a) list" where
  "del k kvs = filter (\<lambda>kv. fst kv \<noteq> k) kvs"

definition lookup :: "(string \<times> jv) list \<Rightarrow> string \<Rightarrow> jv" where
  "lookup kvs k = (case map_of kvs k of None \<Rightarrow> JUndef | Some v \<Rightarrow> v)"

text \<open>
  Reading \<open>v[k]\<close> where \<open>v\<close> is known not to be \<open>undefined\<close> or \<open>null\<close>:
  primitives have no own properties apart from the characters and length of a string.
\<close>

fun getp :: "jv \<Rightarrow> string \<Rightarrow> jv" where
  "getp (JObj kvs) k = lookup kvs k"
| "getp (JArr xs ps) k =
     (case parse_index k of
        Some i \<Rightarrow> (if i < length xs then xs ! i else lookup ps k)
      | None \<Rightarrow> (if k = ''length'' then JNum (int (length xs)) else lookup ps k))"
| "getp (JStr s) k =
     (case parse_index k of
        Some i \<Rightarrow> (if i < length s then JStr [s ! i] else JUndef)
      | None \<Rightarrow> (if k = ''length'' then JNum (int (length s)) else JUndef))"
| "getp v k = JUndef"


text \<open>
  Writing \<open>v[k] = x\<close> for a key that is neither an array index nor \<open>length\<close>.  The
  sources are ECMAScript modules, hence strict code: a write to a property of a primitive
  throws, as does a write to \<open>undefined\<close> or \<open>null\<close>.
\<close>

fun set_named :: "jv \<Rightarrow> string \<Rightarrow> jv \<Rightarrow> js_error + jv" where
  "set_named (JObj kvs) k x = Inr (JObj (upd k x kvs))"
| "set_named (JArr xs ps) k x = Inr (JArr xs (upd k x ps))"
| "set_named v k x = Inl TypeError"

section \<open>Reference resolution\<close>






definition pointer_parts :: "string \<Rightarrow> string list" where
  "pointer_parts r = map unescape_pointer (split_on (CHR ''/'') (drop 2 r))"

section \<open>Finalizing the output document\<close>

text \<open>
  \<^verbatim>\<open>
  function finalizeSwaggerSpec(spec) {
    const output = spec && typeof spec === "object" ? spec : {};
    output.swagger = "2.0";
    output.info = output.info || { title: "API", version: "0.0.0" };
    output.info.title = output.info.title || "API";
    output.info.version = output.info.version || "0.0.0";
    output.paths = output.paths || {};
    return output;
  }
  \<close>
  The writes to \<open>output.info.title\<close> and \<open>output.info.version\<close> go to the info
  object, which stays the value of \<open>output.info\<close>.
\<close>

definition default_info :: jv where
  "default_info = JObj [(''title'', JStr ''API''), (''version'', JStr ''0.0.0'')]"

definition finalizeSwaggerSpec :: "jv \<Rightarrow> js_error + jv" where
  "finalizeSwaggerSpec spec =
     (let output = (if truthy spec \<and> typeof_object spec then spec else JObj []) in
      bindE (set_named output ''swagger'' (JStr ''2.0'')) (\<lambda>o1.
      bindE (set_named o1 ''info'' (js_or (getp o1 ''info'') default_info)) (\<lambda>o2.
      bindE (set_named (getp o2 ''info'') ''title''
               (js_or (getp (getp o2 ''info'') ''title'') (JStr ''API''))) (\<lambda>i1.
      bindE (set_named o2 ''info'' i1) (\<lambda>o3.
      bindE (set_named (getp o3 ''info'') ''version''
               (js_or (getp (getp o3 ''info'') ''version'') (JStr ''0.0.0''))) (\<lambda>i2.
      bindE (set_named o3 ''info'' i2) (\<lambda>o4.
      set_named o4 ''paths'' (js_or (getp o4 ''paths'') (JObj [])))))))))"

section \<open>Version normalization\<close>







section \<open>The store\<close>

text \<open>
  The sanitizer, the dereferencer and the converter change objects in place, compare
  objects by identity, and hand one object to several owners.  For them the document lives
  in a store: a list of cells, addressed by position.  A value is a primitive or the address
  of a cell; a cell is an object (its own properties, in insertion order) or an array (its
  elements and its named properties).  Allocation appends a cell.  An address that is not
  allocated does not occur in a store built from a document; it reads as an empty object.
  Deleting an element of an array leaves \<open>undefined\<close> in its place.
\<close>

datatype hv =
    HUndef
  | HNull
  | HBool bool
  | HNum int
  | HStr string
  | HRef nat

datatype cell =
    Obj "(string \<times> hv) list"
  | Arr "hv list" "(string \<times> hv) list"

type_synonym store = "cell list"

definition cell_of :: "store \<Rightarrow> nat \<Rightarrow> cell" where
  "cell_of h a = (if a < length h then h ! a else Obj [])"

definition alloc :: "store \<Rightarrow> cell \<Rightarrow> nat \<times> store" where
  "alloc h c = (length h, h @ [c])"

fun htruthy :: "hv \<Rightarrow> bool" where
  "htruthy HUndef = False"
| "htruthy HNull = False"
| "htruthy (HBool b) = b"
| "htruthy (HNum n) = (n \<noteq> 0)"
| "htruthy (HStr s) = (s \<noteq> [])"
| "htruthy (HRef a) = True"

text \<open>\<open>typeof v === "object"\<close>\<close>

fun htypeof_object :: "hv \<Rightarrow> bool" where
  "htypeof_object HNull = True"
| "htypeof_object (HRef a) = True"
| "htypeof_object v = False"

text \<open>A truthy value of type object: the address of a cell.\<close>

fun is_ref :: "hv \<Rightarrow> bool" where
  "is_ref (HRef a) = True"
| "is_ref v = False"

fun is_hstr :: "hv \<Rightarrow> bool" where
  "is_hstr (HStr s) = True"
| "is_hstr v = False"

text \<open>\<open>Array.isArray(v)\<close>\<close>

definition is_array :: "store \<Rightarrow> hv \<Rightarrow> bool" where
  "is_array h v =
     (case v of HRef a \<Rightarrow> (case cell_of h a of Arr xs ps \<Rightarrow> True | Obj kvs \<Rightarrow> False) | _ \<Rightarrow> False)"

definition array_elems :: "store \<Rightarrow> hv \<Rightarrow> hv list" where
  "array_elems h v =
     (case v of HRef a \<Rightarrow> (case cell_of h a of Arr xs ps \<Rightarrow> xs | Obj kvs \<Rightarrow> []) | _ \<Rightarrow> [])"

definition hlookup :: "(string \<times> hv) list \<Rightarrow> string \<Rightarrow> hv" where
  "hlookup kvs k = (case map_of kvs k of None \<Rightarrow> HUndef | Some v \<Rightarrow> v)"

definition has_key :: "(string \<times> 'a) list \<Rightarrow> string \<Rightarrow> bool" where
  "has_key kvs k = (k \<in> set (map fst kvs))"

text \<open>The own enumerable properties of a cell, as \<open>for ... in\<close> and \<open>Object.keys\<close> list them.\<close>

fun own_entries :: "cell \<Rightarrow> (string \<times> hv) list" where
  "own_entries (Obj kvs) = kvs"
| "own_entries (Arr xs ps) = zip (map show_nat [0..<length xs]) xs @ ps"

fun cell_get :: "cell \<Rightarrow> string \<Rightarrow> hv" where
  "cell_get (Obj kvs) k = hlookup kvs k"
| "cell_get (Arr xs ps) k =
     (case parse_index k of
        Some i \<Rightarrow> (if i < length xs then xs ! i else hlookup ps k)
      | None \<Rightarrow> (if k = ''length'' then HNum (int (length xs)) else hlookup ps k))"

text \<open>Reading \<open>v[k]\<close> from a value that is not \<open>undefined\<close> or \<open>null\<close>.\<close>

fun hgetp :: "store \<Rightarrow> hv \<Rightarrow> string \<Rightarrow> hv" where
  "hgetp h (HRef a) k = cell_get (cell_of h a) k"
| "hgetp h (HStr s) k =
     (case parse_index k of
        Some i \<Rightarrow> (if i < length s then HStr [s ! i] else HUndef)
      | None \<Rightarrow> (if k = ''length'' then HNum (int (length s)) else HUndef))"
| "hgetp h v k = HUndef"

text \<open>Reading \<open>v[k]\<close> in general.\<close>

fun hget :: "store \<Rightarrow> hv \<Rightarrow> string \<Rightarrow> js_error + hv" where
  "hget h HUndef k = Inl TypeError"
| "hget h HNull k = Inl TypeError"
| "hget h v k = Inr (hgetp h v k)"

text \<open>
  Writing \<open>v[k] = x\<close>.  On an array an index beyond the end extends the array, and
  \<open>length\<close> takes a natural number and cuts or extends the array.  A write to a
  primitive throws in strict code.
\<close>

fun cell_set :: "cell \<Rightarrow> string \<Rightarrow> hv \<Rightarrow> js_error + cell" where
  "cell_set (Obj kvs) k x = Inr (Obj (upd k x kvs))"
| "cell_set (Arr xs ps) k x =
     (case parse_index k of
        Some i \<Rightarrow>
          Inr (Arr (if i < length xs then xs[i := x]
                    else xs @ replicate (i - length xs) HUndef @ [x]) ps)
      | None \<Rightarrow>
          (if k = ''length''
           then (case x of
                   HNum n \<Rightarrow>
                     (if 0 \<le> n
                      then Inr (Arr (take (nat n) xs @ replicate (nat n - length xs) HUndef) ps)
                      else Inl RangeError)
                 | _ \<Rightarrow> Inl RangeError)
           else Inr (Arr xs (upd k x ps))))"

fun hset :: "store \<Rightarrow> hv \<Rightarrow> string \<Rightarrow> hv \<Rightarrow> js_error + store" where
  "hset h (HRef a) k x = bindE (cell_set (cell_of h a) k x) (\<lambda>c. Inr (h[a := c]))"
| "hset h v k x = Inl TypeError"

fun cell_delete :: "cell \<Rightarrow> string \<Rightarrow> cell" where
  "cell_delete (Obj kvs) k = Obj (del k kvs)"
| "cell_delete (Arr xs ps) k =
     (case parse_index k of
        Some i \<Rightarrow> (if i < length xs then Arr (xs[i := HUndef]) ps else Arr xs (del k ps))
      | None \<Rightarrow> Arr xs (del k ps))"

text \<open>\<open>delete v[k]\<close>: nothing to delete on a primitive; \<open>undefined\<close> and \<open>null\<close> throw.\<close>

fun hdelete :: "store \<Rightarrow> hv \<Rightarrow> string \<Rightarrow> js_error + store" where
  "hdelete h (HRef a) k = Inr (h[a := cell_delete (cell_of h a) k])"
| "hdelete h HUndef k = Inl TypeError"
| "hdelete h HNull k = Inl TypeError"
| "hdelete h v k = Inr h"

text \<open>A parsed document is put into the store children first; the result is the value of its root.\<close>

fun load :: "jv \<Rightarrow> store \<Rightarrow> hv \<times> store"
  and load_list :: "jv list \<Rightarrow> store \<Rightarrow> hv list \<times> store"
  and load_props :: "(string \<times> jv) list \<Rightarrow> store \<Rightarrow> (string \<times> hv) list \<times> store" where
  "load JUndef h = (HUndef, h)"
| "load JNull h = (HNull, h)"
| "load (JBool b) h = (HBool b, h)"
| "load (JNum n) h = (HNum n, h)"
| "load (JStr s) h = (HStr s, h)"
| "load (JArr xs ps) h =
     (let (ys, h1) = load_list xs h; (qs, h2) = load_props ps h1; (a, h3) = alloc h2 (Arr ys qs)
      in (HRef a, h3))"
| "load (JObj kvs) h =
     (let (qs, h1) = load_props kvs h; (a, h2) = alloc h1 (Obj qs) in (HRef a, h2))"
| "load_list [] h = ([], h)"
| "load_list (x # xs) h =
     (let (y, h1) = load x h; (ys, h2) = load_list xs h1 in (y # ys, h2))"
| "load_props [] h = ([], h)"
| "load_props ((k, x) # kvs) h =
     (let (y, h1) = load x h; (qs, h2) = load_props kvs h1 in ((k, y) # qs, h2))"

section \<open>The strict sanitizer\<close>

subsection \<open>Local references on the store\<close>

fun contains_sub :: "string \<Rightarrow> string \<Rightarrow> bool" where
  "contains_sub p [] = (p = [])"
| "contains_sub p (c # cs) = (starts_with p (c # cs) \<or> contains_sub p cs)"

text \<open>\<open>ref.replace(/\/allOf\/\d+/g, "")\<close>: every \<open>/allOf/\<close> followed by digits is cut out.\<close>

function strip_allOf_segments :: "string \<Rightarrow> string" where
  "strip_allOf_segments s =
     (case s of
        [] \<Rightarrow> []
      | c # cs \<Rightarrow>
          (if starts_with ''/allOf/'' s \<and> drop 7 s \<noteq> [] \<and> is_digit (hd (drop 7 s))
           then strip_allOf_segments (dropWhile is_digit (drop 7 s))
           else c # strip_allOf_segments cs))"
  by pat_completeness auto
termination
  by (relation "measure length")
     (auto intro!: le_imp_less_Suc order_trans[OF length_dropWhile_le])

declare strip_allOf_segments.simps [simp del]

text \<open>
  \<open>resolveRef\<close> on the store.  The loop reads \<open>current[part]\<close> only from the address of
  a cell, where the read cannot throw.
\<close>

fun resolveRef_walk :: "store \<Rightarrow> hv \<Rightarrow> string list \<Rightarrow> hv" where
  "resolveRef_walk h current [] = (if htruthy current then current else HNull)"
| "resolveRef_walk h current (part # parts) =
     (if \<not> htruthy current \<or> \<not> htypeof_object current then HNull
      else resolveRef_walk h (hgetp h current part) parts)"

definition resolveRef_st :: "store \<Rightarrow> hv \<Rightarrow> hv \<Rightarrow> hv" where
  "resolveRef_st h root ref =
     (if \<not> htruthy root \<or> \<not> htypeof_object root then HNull
      else case ref of
             HStr r \<Rightarrow>
               (if r = [] \<or> \<not> starts_with ''#/'' r then HNull
                else resolveRef_walk h root (pointer_parts r))
           | _ \<Rightarrow> HNull)"

text \<open>
  \<^verbatim>\<open>
  function rewriteAllOfRef(ref, root) {
    if (!ref || typeof ref !== "string") return null;
    if (!ref.startsWith("#/") || ref.indexOf("/allOf/") === -1) return null;
    const candidate = ref.replace(/\/allOf\/\d+/g, "");
    if (candidate === ref) return null;
    if (resolveRef(root, candidate)) return candidate;
    return null;
  }
  \<close>
\<close>

definition rewriteAllOfRef :: "store \<Rightarrow> hv \<Rightarrow> hv \<Rightarrow> hv" where
  "rewriteAllOfRef h ref root =
     (case ref of
        HStr r \<Rightarrow>
          (if r = [] then HNull
           else if \<not> starts_with ''#/'' r \<or> \<not> contains_sub ''/allOf/'' r then HNull
           else if strip_allOf_segments r = r then HNull
           else if htruthy (resolveRef_st h root (HStr (strip_allOf_segments r)))
                then HStr (strip_allOf_segments r)
           else HNull)
      | _ \<Rightarrow> HNull)"

subsection \<open>Schema helpers\<close>

text \<open>Writing and deleting a property with a fixed, non-numeric name at an address.\<close>

fun cell_set_named :: "cell \<Rightarrow> string \<Rightarrow> hv \<Rightarrow> cell" where
  "cell_set_named (Obj kvs) k x = Obj (upd k x kvs)"
| "cell_set_named (Arr xs ps) k x = Arr xs (upd k x ps)"

definition set_at :: "store \<Rightarrow> nat \<Rightarrow> string \<Rightarrow> hv \<Rightarrow> store" where
  "set_at h a k x = h[a := cell_set_named (cell_of h a) k x]"

definition delete_at :: "store \<Rightarrow> nat \<Rightarrow> string \<Rightarrow> store" where
  "delete_at h a k = h[a := cell_delete (cell_of h a) k]"

text \<open>
  \<^verbatim>\<open>
  function ensureSchemaType(schema) {
    if (!schema || typeof schema !== "object") return;
    if (schema.$ref) return;
    if (!schema.type) {
      if (schema.properties || schema.additionalProperties || schema.required) {
        schema.type = "object";
      } else if (schema.items) {
        schema.type = "array";
      }
    }
  }
  \<close>
\<close>

definition ensureSchemaType :: "store \<Rightarrow> hv \<Rightarrow> store" where
  "ensureSchemaType h schema =
     (case schema of
        HRef a \<Rightarrow>
          (if htruthy (hgetp h schema ''$ref'') then h
           else if htruthy (hgetp h schema ''type'') then h
           else if htruthy (hgetp h schema ''properties'')
                   \<or> htruthy (hgetp h schema ''additionalProperties'')
                   \<or> htruthy (hgetp h schema ''required'')
                then set_at h a ''type'' (HStr ''object'')
           else if htruthy (hgetp h schema ''items'') then set_at h a ''type'' (HStr ''array'')
           else h)
      | _ \<Rightarrow> h)"

text \<open>
  \<^verbatim>\<open>
  function isSchemaLike(value) {
    if (!value || typeof value !== "object") return false;
    return (value.$ref || value.type || value.format || value.properties || value.items ||
            value.allOf || value.anyOf || value.oneOf || value.additionalProperties ||
            value.enum || value.discriminator);
  }
  \<close>
  The result is only tested for truth.
\<close>

definition isSchemaLike :: "store \<Rightarrow> hv \<Rightarrow> bool" where
  "isSchemaLike h v =
     (htruthy v \<and> htypeof_object v \<and>
      list_ex (\<lambda>k. htruthy (hgetp h v k))
        [''$ref'', ''type'', ''format'', ''properties'', ''items'', ''allOf'', ''anyOf'',
         ''oneOf'', ''additionalProperties'', ''enum'', ''discriminator''])"

subsection \<open>Merging the members of allOf\<close>

text \<open>
  \<^verbatim>\<open>
  function mergeSchema(target, source) {
    if (!source || typeof source !== "object") return;
    for (const key in source) {
      if (key === "allOf") continue;
      const value = source[key];
      if (key === "properties" && value && typeof value === "object") {
        target.properties = target.properties || {};
        Object.assign(target.properties, value);
        continue;
      }
      if (key === "required" && Array.isArray(value)) {
        const current = Array.isArray(target.required) ? target.required : [];
        const merged = new Set(current);
        value.forEach((entry) => merged.add(entry));
        target.required = Array.from(merged);
        continue;
      }
      if (key === "type") { if (!target.type && value) { target.type = value; } continue; }
      if (key === "items" && value !== undefined) {
        if (!target.items) { target.items = value; } continue; }
      if (key === "additionalProperties" && value !== undefined) {
        if (target.additionalProperties === undefined) { target.additionalProperties = value; }
        continue; }
      if (key === "description") {
        if (!target.description && value) { target.description = value; } continue; }
      if (!Object.prototype.hasOwnProperty.call(target, key)) { target[key] = value; }
    }
  }
  \<close>
  The only target is the object \<open>merged\<close> that \<open>flattenAllOf\<close> creates.  Until its keys
  are assigned to the schema, \<open>merged\<close>, the object it creates for \<open>properties\<close> and
  the arrays it creates for \<open>required\<close> can be reached from that local variable only.
  The model keeps them as local values: \<open>LProps\<close> is the created properties object,
  \<open>LReq\<close> a created required array, \<open>LVal\<close> a value taken from a source.  They are
  put into the store when the keys are assigned.
\<close>

datatype lv =
    LVal hv
  | LProps "(string \<times> hv) list"
  | LReq "hv list"

type_synonym merged = "(string \<times> lv) list"

fun ltruthy :: "lv \<Rightarrow> bool" where
  "ltruthy (LVal v) = htruthy v"
| "ltruthy (LProps ps) = True"
| "ltruthy (LReq xs) = True"

definition target_truthy :: "merged \<Rightarrow> string \<Rightarrow> bool" where
  "target_truthy target k = (case map_of target k of None \<Rightarrow> False | Some x \<Rightarrow> ltruthy x)"

text \<open>\<open>Object.assign(props, value)\<close> on the created properties object.\<close>

definition assign_entries :: "(string \<times> hv) list \<Rightarrow> (string \<times> hv) list \<Rightarrow> (string \<times> hv) list" where
  "assign_entries ps entries = foldl (\<lambda>acc (k, v). upd k v acc) ps entries"

text \<open>
  \<open>Object.assign\<close> on a string wraps the string; the wrapper refuses a write to one of
  its characters or to its length.
\<close>

definition string_refuses :: "string \<Rightarrow> string \<Rightarrow> bool" where
  "string_refuses s k =
     (case parse_index k of Some i \<Rightarrow> i < length s | None \<Rightarrow> k = ''length'')"

text \<open>A \<open>Set\<close> keeps the first occurrence of each value, in insertion order.\<close>

definition set_add :: "hv list \<Rightarrow> hv \<Rightarrow> hv list" where
  "set_add xs x = (if x \<in> set xs then xs else xs @ [x])"

definition merge_key :: "store \<Rightarrow> merged \<Rightarrow> string \<times> hv \<Rightarrow> js_error + merged" where
  "merge_key h target kv =
     (let key = fst kv; value = snd kv in
      if key = ''allOf'' then Inr target
      else if key = ''properties'' \<and> htruthy value \<and> htypeof_object value then
        (case map_of target ''properties'' of
           Some (LProps ps) \<Rightarrow>
             Inr (upd ''properties'' (LProps (assign_entries ps (own_entries (case value of HRef a \<Rightarrow> cell_of h a | _ \<Rightarrow> Obj [])))) target)
         | Some (LVal (HStr s)) \<Rightarrow>
             (if s = [] then
                Inr (upd ''properties'' (LProps (assign_entries [] (own_entries (case value of HRef a \<Rightarrow> cell_of h a | _ \<Rightarrow> Obj [])))) target)
              else if list_ex (\<lambda>e. string_refuses s (fst e)) (own_entries (case value of HRef a \<Rightarrow> cell_of h a | _ \<Rightarrow> Obj []))
              then Inl TypeError
              else Inr target)
         | Some x \<Rightarrow>
             (if ltruthy x then Inr target
              else Inr (upd ''properties'' (LProps (assign_entries [] (own_entries (case value of HRef a \<Rightarrow> cell_of h a | _ \<Rightarrow> Obj [])))) target))
         | None \<Rightarrow>
             Inr (upd ''properties'' (LProps (assign_entries [] (own_entries (case value of HRef a \<Rightarrow> cell_of h a | _ \<Rightarrow> Obj [])))) target))
      else if key = ''required'' \<and> is_array h value then
        Inr (upd ''required''
               (LReq (foldl set_add
                        (foldl set_add [] (case map_of target ''required'' of Some (LReq xs) \<Rightarrow> xs | _ \<Rightarrow> []))
                        (array_elems h value)))
               target)
      else if key = ''type'' then
        Inr (if \<not> target_truthy target ''type'' \<and> htruthy value then upd ''type'' (LVal value) target else target)
      else if key = ''items'' \<and> value \<noteq> HUndef then
        Inr (if \<not> target_truthy target ''items'' then upd ''items'' (LVal value) target else target)
      else if key = ''additionalProperties'' \<and> value \<noteq> HUndef then
        Inr (if map_of target ''additionalProperties'' = None
                \<or> map_of target ''additionalProperties'' = Some (LVal HUndef)
             then upd ''additionalProperties'' (LVal value) target else target)
      else if key = ''description'' then
        Inr (if \<not> target_truthy target ''description'' \<and> htruthy value
             then upd ''description'' (LVal value) target else target)
      else Inr (if \<not> has_key target key then upd key (LVal value) target else target))"

fun merge_keys :: "store \<Rightarrow> merged \<Rightarrow> (string \<times> hv) list \<Rightarrow> js_error + merged" where
  "merge_keys h target [] = Inr target"
| "merge_keys h target (kv # kvs) = bindE (merge_key h target kv) (\<lambda>t. merge_keys h t kvs)"

definition mergeSchema :: "store \<Rightarrow> merged \<Rightarrow> hv \<Rightarrow> js_error + merged" where
  "mergeSchema h target source =
     (case source of
        HRef a \<Rightarrow> merge_keys h target (own_entries (cell_of h a))
      | _ \<Rightarrow> Inr target)"

subsection \<open>Flattening allOf\<close>

text \<open>
  \<^verbatim>\<open>
  function flattenAllOf(schema, root, state) {
    if (!schema || !Array.isArray(schema.allOf) || schema.allOf.length === 0) return false;
    if (state && state.active && state.active.has(schema)) return false;
    if (state && state.active) { state.active.add(schema); }

    const resolvedItems = [];
    for (const item of schema.allOf) {
      if (!item || typeof item !== "object") {
        if (state && state.active) state.active.delete(schema);
        return false;
      }
      if (item.$ref) {
        let resolved = resolveRef(root, item.$ref);
        if (!resolved && typeof item.$ref === "string" && item.$ref.includes("/allOf/")) {
          const candidate = item.$ref.replace(/\/allOf\/\d+/g, "");
          resolved = resolveRef(root, candidate);
          if (resolved) { item.$ref = candidate; }
        }
        if (!resolved || typeof resolved !== "object") {
          if (state && state.active) state.active.delete(schema);
          return false;
        }
        resolvedItems.push(resolved);
      } else {
        resolvedItems.push(item);
      }
    }

    const merged = {};
    mergeSchema(merged, schema);
    for (const item of resolvedItems) {
      if (item.allOf) { flattenAllOf(item, root, state); }
      mergeSchema(merged, item);
    }

    for (const key in schema) { delete schema[key]; }
    Object.assign(schema, merged);
    ensureSchemaType(schema);

    if (state && state.active) { state.active.delete(schema); }
    return true;
  }
  \<close>
  The state is the set of active addresses together with the store.  The first loop
  returns the resolved members, or nothing when it gives up; the store it returns carries
  the rewritten \<open>$ref\<close> members in both cases.  \<open>resolve_item\<close> is the body of
  that loop for one member.
\<close>

definition resolve_item :: "hv \<Rightarrow> hv \<Rightarrow> store \<Rightarrow> hv option \<times> store" where
  "resolve_item root item h =
     (if \<not> htruthy item \<or> \<not> htypeof_object item then (None, h)
      else if htruthy (hgetp h item ''$ref'') then
        (let ref = hgetp h item ''$ref'';
             resolved0 = resolveRef_st h root ref;
             retry = (\<not> htruthy resolved0 \<and> is_hstr ref
                      \<and> contains_sub ''/allOf/'' (case ref of HStr r \<Rightarrow> r | _ \<Rightarrow> []));
             candidate = HStr (strip_allOf_segments (case ref of HStr r \<Rightarrow> r | _ \<Rightarrow> []));
             resolved = (if retry then resolveRef_st h root candidate else resolved0);
             h1 = (if retry \<and> htruthy resolved
                   then (case item of HRef a \<Rightarrow> set_at h a ''$ref'' candidate | _ \<Rightarrow> h)
                   else h)
         in if \<not> htruthy resolved \<or> \<not> htypeof_object resolved then (None, h1)
            else (Some resolved, h1))
      else (Some item, h))"

fun resolve_items :: "hv \<Rightarrow> hv list \<Rightarrow> store \<Rightarrow> hv list option \<times> store" where
  "resolve_items root [] h = (Some [], h)"
| "resolve_items root (item # rest) h =
     (case resolve_item root item h of
        (None, h1) \<Rightarrow> (None, h1)
      | (Some r, h1) \<Rightarrow>
          (case resolve_items root rest h1 of
             (None, h2) \<Rightarrow> (None, h2)
           | (Some rs, h2) \<Rightarrow> (Some (r # rs), h2)))"

text \<open>\<open>for (const key in schema) delete schema[key]\<close>\<close>

fun clear_cell :: "cell \<Rightarrow> cell" where
  "clear_cell (Obj kvs) = Obj []"
| "clear_cell (Arr xs ps) = Arr (replicate (length xs) HUndef) []"

text \<open>The created objects enter the store when their key is assigned.\<close>

fun materialize :: "store \<Rightarrow> lv \<Rightarrow> hv \<times> store" where
  "materialize h (LVal v) = (v, h)"
| "materialize h (LProps ps) = (HRef (length h), h @ [Obj ps])"
| "materialize h (LReq xs) = (HRef (length h), h @ [Arr xs []])"

text \<open>\<open>Object.assign(schema, merged)\<close>\<close>

fun assign_merged :: "store \<Rightarrow> hv \<Rightarrow> merged \<Rightarrow> js_error + store" where
  "assign_merged h schema [] = Inr h"
| "assign_merged h schema (kx # rest) =
     bindE (hset (snd (materialize h (snd kx))) schema (fst kx) (fst (materialize h (snd kx))))
       (\<lambda>h1. assign_merged h1 schema rest)"

text \<open>The end of a successful run: the keys of the schema are replaced by those of \<open>merged\<close>.\<close>

definition replace_keys :: "store \<Rightarrow> nat \<Rightarrow> merged \<Rightarrow> js_error + store" where
  "replace_keys h s m =
     bindE (assign_merged (h[s := clear_cell (cell_of h s)]) (HRef s) m)
       (\<lambda>h3. Inr (ensureSchemaType h3 (HRef s)))"

type_synonym flatten_state = "nat set \<times> store"

fun flattenAllOf :: "nat \<Rightarrow> hv \<Rightarrow> hv \<Rightarrow> flatten_state \<Rightarrow> (js_error + bool \<times> flatten_state) option"
  and merge_items :: "nat \<Rightarrow> hv list \<Rightarrow> hv \<Rightarrow> flatten_state \<Rightarrow> merged
                      \<Rightarrow> (js_error + merged \<times> flatten_state) option" where
  "flattenAllOf 0 schema root st = None"
| "flattenAllOf (Suc n) schema root st =
     (let active = fst st; h = snd st in
      if \<not> htruthy schema \<or> \<not> is_array h (hgetp h schema ''allOf'')
         \<or> array_elems h (hgetp h schema ''allOf'') = []
      then Some (Inr (False, st))
      else case schema of
        HRef s \<Rightarrow>
          (if s \<in> active then Some (Inr (False, st))
           else case resolve_items root (array_elems h (hgetp h schema ''allOf'')) h of
             (None, h1) \<Rightarrow> Some (Inr (False, (insert s active - {s}, h1)))
           | (Some items, h1) \<Rightarrow>
               (case mergeSchema h1 [] schema of
                  Inl e \<Rightarrow> Some (Inl e)
                | Inr m0 \<Rightarrow>
                    (case merge_items n items root (insert s active, h1) m0 of
                       None \<Rightarrow> None
                     | Some (Inl e) \<Rightarrow> Some (Inl e)
                     | Some (Inr (m, st2)) \<Rightarrow>
                         (case replace_keys (snd st2) s m of
                            Inl e \<Rightarrow> Some (Inl e)
                          | Inr h3 \<Rightarrow> Some (Inr (True, (fst st2 - {s}, h3)))))))
      | _ \<Rightarrow> Some (Inr (False, st)))"
| "merge_items n [] root st m = Some (Inr (m, st))"
| "merge_items n (item # items) root st m =
     (case (if htruthy (hgetp (snd st) item ''allOf'')
            then flattenAllOf n item root st
            else Some (Inr (False, st))) of
        None \<Rightarrow> None
      | Some (Inl e) \<Rightarrow> Some (Inl e)
      | Some (Inr (b, st1)) \<Rightarrow>
          (case mergeSchema (snd st1) m item of
             Inl e \<Rightarrow> Some (Inl e)
           | Inr m1 \<Rightarrow> merge_items n items root st1 m1))"

subsection \<open>The sanitizer\<close>

definition STRICT_SCHEMA_REMOVE_KEYS :: "string list" where
  "STRICT_SCHEMA_REMOVE_KEYS =
     [''$schema'', ''$id'', ''anchor'', ''defs'', ''$defs'', ''if'', ''then'', ''else'',
      ''dependentSchemas'', ''dependentRequired'', ''unevaluatedItems'',
      ''unevaluatedProperties'', ''propertyNames'', ''patternProperties'', ''contains'',
      ''minContains'', ''maxContains'', ''prefixItems'', ''contentEncoding'',
      ''contentMediaType'', ''contentSchema'', ''const'', ''nullable'', ''oneOf'', ''anyOf'',
      ''not'', ''deprecated'', ''writeOnly'', ''examples'']"

definition mapContainerKeys :: "string list" where
  "mapContainerKeys =
     [''paths'', ''definitions'', ''parameters'', ''responses'', ''securityDefinitions'',
      ''headers'', ''callbacks'', ''schemas'', ''requestBodies'', ''components'',
      ''properties'', ''examples'']"

datatype mode = Normal | MapMode

text \<open>The options object; a field that is not given is \<open>undefined\<close>.\<close>

record sanitize_options =
  opt_strict :: hv
  opt_stripExtensions :: hv

fun filter_cell :: "(string \<times> hv \<Rightarrow> bool) \<Rightarrow> cell \<Rightarrow> cell" where
  "filter_cell keep (Obj kvs) = Obj (filter keep kvs)"
| "filter_cell keep (Arr xs ps) = Arr xs (filter keep ps)"

text \<open>
  One node in normal mode (the body of \<open>if (mode === "normal")\<close>), for a node that is
  an object and not an array.  The counters of the source are only written to the debug
  log and are left out.
\<close>

definition strict_keep :: "string \<times> hv \<Rightarrow> bool" where
  "strict_keep kv =
     (fst kv \<notin> set STRICT_SCHEMA_REMOVE_KEYS
      \<and> \<not> (fst kv = ''additionalProperties'' \<and> (snd kv = HBool True \<or> snd kv = HBool False)))"

definition sanitize_schema :: "store \<Rightarrow> nat \<Rightarrow> hv \<Rightarrow> store" where
  "sanitize_schema h a spec =
     (let ref = hgetp h (HRef a) ''$ref'';
          rewritten = rewriteAllOfRef h ref spec;
          h1 = (if htruthy ref \<and> is_hstr ref
                   \<and> contains_sub ''/allOf/'' (case ref of HStr r \<Rightarrow> r | _ \<Rightarrow> [])
                   \<and> htruthy rewritten
                then set_at h a ''$ref'' rewritten else h);
          h2 = h1[a := filter_cell strict_keep (cell_of h1 a)]
      in ensureSchemaType h2 (HRef a))"

definition sanitize_node ::
  "nat \<Rightarrow> bool \<Rightarrow> hv \<Rightarrow> nat \<Rightarrow> flatten_state \<Rightarrow> (js_error + flatten_state) option" where
  "sanitize_node n stripExtensions spec a st =
     (let h0 = snd st;
          h1 = (if stripExtensions
                then h0[a := filter_cell (\<lambda>kv. \<not> starts_with ''x-'' (fst kv)) (cell_of h0 a)]
                else h0);
          schemaLike = isSchemaLike h1 (HRef a);
          h2 = (if hgetp h1 (HRef a) ''example'' \<noteq> HUndef then delete_at h1 a ''example'' else h1);
          h3 = (if hgetp h2 (HRef a) ''examples'' \<noteq> HUndef then delete_at h2 a ''examples'' else h2)
      in case (if schemaLike \<and> htruthy (hgetp h3 (HRef a) ''allOf'')
                  \<and> is_array h3 (hgetp h3 (HRef a) ''allOf'')
               then flattenAllOf n (HRef a) spec (fst st, h3)
               else Some (Inr (False, (fst st, h3)))) of
           None \<Rightarrow> None
         | Some (Inl e) \<Rightarrow> Some (Inl e)
         | Some (Inr (b, st1)) \<Rightarrow>
             Some (Inr (fst st1,
                        if schemaLike then sanitize_schema (snd st1) a spec else snd st1)))"

text \<open>
  The work loop of one pass.  The head of the list is the top of the stack; \<open>seen\<close> is
  the set of visited addresses.
\<close>

definition push_children :: "store \<Rightarrow> nat \<Rightarrow> (hv \<times> mode) list \<Rightarrow> (hv \<times> mode) list" where
  "push_children h a stack =
     rev (map (\<lambda>kv. (snd kv, if fst kv \<in> set mapContainerKeys then MapMode else Normal))
            (own_entries (cell_of h a))) @ stack"

fun sanitize_loop ::
  "nat \<Rightarrow> bool \<Rightarrow> hv \<Rightarrow> (hv \<times> mode) list \<Rightarrow> nat set \<Rightarrow> flatten_state
   \<Rightarrow> (js_error + store) option" where
  "sanitize_loop 0 stripExtensions spec stack seen st = None"
| "sanitize_loop (Suc n) stripExtensions spec [] seen st = Some (Inr (snd st))"
| "sanitize_loop (Suc n) stripExtensions spec ((node, m) # stack) seen st =
     (case node of
        HRef a \<Rightarrow>
          (if a \<in> seen then sanitize_loop n stripExtensions spec stack seen st
           else if is_array (snd st) node then
             sanitize_loop n stripExtensions spec
               (rev (map (\<lambda>item. (item, Normal)) (array_elems (snd st) node)) @ stack)
               (insert a seen) st
           else
             (case (if m = Normal then sanitize_node n stripExtensions spec a st
                    else Some (Inr st)) of
                None \<Rightarrow> None
              | Some (Inl e) \<Rightarrow> Some (Inl e)
              | Some (Inr st1) \<Rightarrow>
                  sanitize_loop n stripExtensions spec (push_children (snd st1) a stack)
                    (insert a seen) st1))
      | _ \<Rightarrow> sanitize_loop n stripExtensions spec stack seen st)"

text \<open>
  \<^verbatim>\<open>
  export function sanitizeSwagger2(spec, options = {}) {
    const strict = options && options.strict !== undefined ? Boolean(options.strict) : true;
    if (!strict || !spec || typeof spec !== "object") return spec;
    ...
    const stripExtensions =
      options && options.stripExtensions !== undefined ? Boolean(options.stripExtensions) : true;
    ...
    for (let pass = 0; pass < 2; pass += 1) {
      const flattenState = { active: new WeakSet() };
      const seen = new WeakSet();
      const stack = [{ node: spec, mode: "normal" }];
      while (stack.length > 0) { ... }
    }
    ...
    return spec;
  }
  \<close>
  A falsy \<open>options\<close> is \<open>None\<close>.  The result is the returned value and the store.
\<close>

definition option_flag :: "sanitize_options option \<Rightarrow> (sanitize_options \<Rightarrow> hv) \<Rightarrow> bool" where
  "option_flag options field =
     (case options of
        None \<Rightarrow> True
      | Some opts \<Rightarrow> (if field opts \<noteq> HUndef then htruthy (field opts) else True))"

definition sanitizeSwagger2 ::
  "nat \<Rightarrow> hv \<Rightarrow> sanitize_options option \<Rightarrow> store \<Rightarrow> (js_error + hv \<times> store) option" where
  "sanitizeSwagger2 n spec options h =
     (if \<not> option_flag options opt_strict \<or> \<not> htruthy spec \<or> \<not> htypeof_object spec
      then Some (Inr (spec, h))
      else case sanitize_loop n (option_flag options opt_stripExtensions) spec
                  [(spec, Normal)] {} ({}, h) of
             None \<Rightarrow> None
           | Some (Inl e) \<Rightarrow> Some (Inl e)
           | Some (Inr h1) \<Rightarrow>
               (case sanitize_loop n (option_flag options opt_stripExtensions) spec
                       [(spec, Normal)] {} ({}, h1) of
                  None \<Rightarrow> None
                | Some (Inl e) \<Rightarrow> Some (Inl e)
                | Some (Inr h2) \<Rightarrow> Some (Inr (spec, h2))))"

subsection \<open>Notions used in the proofs about flattening\<close>

text \<open>
  An object is pending when it carries an \<open>allOf\<close> key whose value is an address and it
  is not active.  Only a pending schema passes the guards of \<open>flattenAllOf\<close>.
\<close>

definition has_allOf :: "cell \<Rightarrow> bool" where
  "has_allOf c = is_ref (cell_get c ''allOf'')"

definition pending :: "store \<Rightarrow> nat set \<Rightarrow> nat set" where
  "pending h A = {a. a < length h \<and> a \<notin> A \<and> has_allOf (h ! a)}"

fun is_lprops :: "lv \<Rightarrow> bool" where
  "is_lprops (LProps ps) = True"
| "is_lprops x = False"

text \<open>
  The shape of \<open>merged\<close>: its keys are distinct, \<open>allOf\<close> is not among them, and a
  created properties object stands under \<open>properties\<close> only.
\<close>

definition wf_merged :: "merged \<Rightarrow> bool" where
  "wf_merged m = (distinct (map fst m) \<and> \<not> has_key m ''allOf''
                  \<and> list_all (\<lambda>kx. if is_lprops (snd kx) then fst kx = ''properties'' else True) m)"

definition count_props :: "merged \<Rightarrow> nat" where
  "count_props m = length (filter (\<lambda>kx. is_lprops (snd kx)) m)"

text \<open>
  What a schema contributes to a merge, read in a given store: its properties as a map
  from names to values, and the elements of its \<open>required\<close> array.
\<close>

definition props_of :: "store \<Rightarrow> hv \<Rightarrow> (string \<rightharpoonup> hv)" where
  "props_of h v =
     (case hgetp h v ''properties'' of
        HRef p \<Rightarrow> map_of (own_entries (cell_of h p))
      | _ \<Rightarrow> Map.empty)"

definition required_of :: "store \<Rightarrow> hv \<Rightarrow> hv list" where
  "required_of h v =
     (if is_array h (hgetp h v ''required'') then array_elems h (hgetp h v ''required'') else [])"

text \<open>
  The store in which each resolved member is merged: the store left by the flattening of
  that member's own \<open>allOf\<close>, when it has one, and by everything before.
\<close>

fun member_stores :: "nat \<Rightarrow> hv list \<Rightarrow> hv \<Rightarrow> flatten_state \<Rightarrow> store list" where
  "member_stores n [] root st = []"
| "member_stores n (item # items) root st =
     (case (if htruthy (hgetp (snd st) item ''allOf'')
            then flattenAllOf n item root st
            else Some (Inr (False, st))) of
        Some (Inr (b, st1)) \<Rightarrow> snd st1 # member_stores n items root st1
      | _ \<Rightarrow> [])"

text \<open>Merging a list of sources, each read in its own store.\<close>

fun merge_views :: "merged \<Rightarrow> (hv \<times> store) list \<Rightarrow> js_error + merged" where
  "merge_views m [] = Inr m"
| "merge_views m (vh # rest) =
     bindE (mergeSchema (snd vh) m (fst vh)) (\<lambda>m1. merge_views m1 rest)"

text \<open>
  A source is plain when its cell and the cell of its properties list every key once, as
  every JavaScript object does, its \<open>properties\<close> is an object or falsy, and its
  \<open>required\<close> is an array or not an object at all.
\<close>

definition distinct_keys :: "cell \<Rightarrow> bool" where
  "distinct_keys c = distinct (map fst (own_entries c))"

definition plain_source :: "hv \<times> store \<Rightarrow> bool" where
  "plain_source vh =
     (case fst vh of
        HRef a \<Rightarrow>
          distinct_keys (cell_of (snd vh) a)
          \<and> (case hgetp (snd vh) (fst vh) ''properties'' of
                HRef p \<Rightarrow> distinct_keys (cell_of (snd vh) p)
              | x \<Rightarrow> \<not> htruthy x)
          \<and> (is_array (snd vh) (hgetp (snd vh) (fst vh) ''required'')
               \<or> \<not> is_ref (hgetp (snd vh) (fst vh) ''required''))
      | _ \<Rightarrow> False)"

text \<open>The views of \<open>merged\<close> that correspond to them.\<close>

definition mprops :: "merged \<Rightarrow> (string \<rightharpoonup> hv)" where
  "mprops m = (case map_of m ''properties'' of Some (LProps ps) \<Rightarrow> map_of ps | _ \<Rightarrow> Map.empty)"

definition mreq :: "merged \<Rightarrow> hv list" where
  "mreq m = (case map_of m ''required'' of Some (LReq xs) \<Rightarrow> xs | _ \<Rightarrow> [])"

definition okp :: "merged \<Rightarrow> bool" where
  "okp m = (case map_of m ''properties'' of Some (LVal v) \<Rightarrow> \<not> htruthy v
            | Some (LReq xs) \<Rightarrow> False | _ \<Rightarrow> True)"

definition okr :: "merged \<Rightarrow> bool" where
  "okr m = (case map_of m ''required'' of Some (LVal v) \<Rightarrow> \<not> is_ref v
            | Some (LProps ps) \<Rightarrow> False | Some (LReq xs) \<Rightarrow> distinct xs | None \<Rightarrow> True)"

subsection \<open>An example store for flattening\<close>

text \<open>
  The document
  \<^verbatim>\<open>
  { "defs": { "M": { "allOf": [ { "$ref": "#/S" } ], "properties": { "c": 5 } } },
    "S": { "allOf": [ { "properties": { "b": 3, "c": 4 }, "required": ["b", "a"] },
                      { "$ref": "#/defs/M" } ],
           "properties": { "a": 1, "b": 2 }, "required": ["a"] } }
  \<close>
  with the schema \<open>S\<close> at address 0 and the root at address 8.  The member \<open>M\<close> has
  an \<open>allOf\<close> of its own, which refers back to \<open>S\<close>.
\<close>

definition flatten_example :: store where
  "flatten_example =
    [Obj [(''allOf'', HRef 1), (''properties'', HRef 2), (''required'', HRef 3)],
     Arr [HRef 4, HRef 5] [],
     Obj [(''a'', HNum 1), (''b'', HNum 2)],
     Arr [HStr ''a''] [],
     Obj [(''properties'', HRef 6), (''required'', HRef 7)],
     Obj [(''$ref'', HStr ''#/defs/M'')],
     Obj [(''b'', HNum 3), (''c'', HNum 4)],
     Arr [HStr ''b'', HStr ''a''] [],
     Obj [(''defs'', HRef 9), (''S'', HRef 0)],
     Obj [(''M'', HRef 10)],
     Obj [(''allOf'', HRef 11), (''properties'', HRef 12)],
     Arr [HRef 13] [],
     Obj [(''c'', HNum 5)],
     Obj [(''$ref'', HStr ''#/S'')]]"

definition flatten_example_result :: store where
  "flatten_example_result =
    [Obj [(''properties'', HRef 16), (''required'', HRef 17), (''type'', HStr ''object'')],
     Arr [HRef 4, HRef 5] [],
     Obj [(''a'', HNum 1), (''b'', HNum 2)],
     Arr [HStr ''a''] [],
     Obj [(''properties'', HRef 6), (''required'', HRef 7)],
     Obj [(''$ref'', HStr ''#/defs/M'')],
     Obj [(''b'', HNum 3), (''c'', HNum 4)],
     Arr [HStr ''b'', HStr ''a''] [],
     Obj [(''defs'', HRef 9), (''S'', HRef 0)],
     Obj [(''M'', HRef 10)],
     Obj [(''properties'', HRef 14), (''required'', HRef 15), (''type'', HStr ''object'')],
     Arr [HRef 13] [],
     Obj [(''c'', HNum 5)],
     Obj [(''$ref'', HStr ''#/S'')],
     Obj [(''c'', HNum 5), (''a'', HNum 1), (''b'', HNum 2)],
     Arr [HStr ''a''] [],
     Obj [(''a'', HNum 1), (''b'', HNum 2), (''c'', HNum 5)],
     Arr [HStr ''a'', HStr ''b''] []]"

section \<open>Verified properties\<close>

subsection \<open>The finalizer\<close>


lemma lookup_upd: "lookup (upd k v kvs) k' = (if k' = k then v else lookup kvs k')"
  by (induction kvs) (auto simp: lookup_def)

lemma getp_set_named:
  "set_named ob k x = Inr ob' \<Longrightarrow> parse_index k = None \<Longrightarrow> k \<noteq> ''length'' \<Longrightarrow>
   getp ob' k' = (if k' = k then x else getp ob k')"
  by (cases ob) (auto simp: lookup_upd split: option.splits)

lemma set_named_objectlike:
  "truthy ob \<Longrightarrow> typeof_object ob \<Longrightarrow> \<exists>ob'. set_named ob k x = Inr ob' \<and> truthy ob' \<and> typeof_object ob'"
  by (cases ob) auto

lemma set_named_primitive:
  "\<not> (truthy ob \<and> typeof_object ob) \<Longrightarrow> set_named ob k x = Inl TypeError"
  by (cases ob) auto

lemma named_keys [simp]:
  "parse_index ''swagger'' = None" "parse_index ''info'' = None" "parse_index ''title'' = None"
  "parse_index ''version'' = None" "parse_index ''paths'' = None"
  by (simp_all add: parse_index_def is_digit_def)



text \<open>A truthy \<open>info\<close> that is a boolean, a number or a string makes the write of its title throw.\<close>

lemma finalizeSwaggerSpec_primitive_info:
  assumes "inp = (if truthy spec \<and> typeof_object spec then spec else JObj [])"
    and "truthy (getp inp ''info'')" and "\<not> typeof_object (getp inp ''info'')"
  shows "finalizeSwaggerSpec spec = Inl TypeError"
proof -
  have inp_obj: "truthy inp" "typeof_object inp" using assms(1) by (auto split: if_splits)
  obtain o1 where o1: "set_named inp ''swagger'' (JStr ''2.0'') = Inr o1" "truthy o1" "typeof_object o1"
    using set_named_objectlike[OF inp_obj] by blast
  have g1: "\<And>k. getp o1 k = (if k = ''swagger'' then JStr ''2.0'' else getp inp k)"
    using getp_set_named[OF o1(1)] by simp
  obtain o2 where o2: "set_named o1 ''info'' (getp inp ''info'') = Inr o2"
    using set_named_objectlike[OF o1(2,3)] by blast
  have g2: "\<And>k. getp o2 k = (if k = ''info'' then getp inp ''info'' else getp o1 k)"
    using getp_set_named[OF o2(1)] by simp
  show ?thesis
    unfolding finalizeSwaggerSpec_def Let_def assms(1)[symmetric]
    using assms(2,3) by (simp add: bindE_def o1 g1 js_or_def o2 g2 set_named_primitive)
qed


subsection \<open>The resolvers\<close>








subsection \<open>The version normalizer\<close>



lemma dialect_key [simp]: "parse_index ''jsonSchemaDialect'' = None"
  by (simp add: parse_index_def is_digit_def)




subsection \<open>Flattening terminates\<close>

lemma nth_upd: "h[s := c] ! x = (if x = s \<and> s < length h then c else h ! x)"
  by (cases "s < length h") (auto simp: nth_list_update list_update_beyond)

lemma finite_pending [simp]: "finite (pending h A)"
  by (simp add: pending_def)

lemma allOf_key [simp]: "parse_index ''allOf'' = None" "parse_index ''$ref'' = None" "parse_index ''type'' = None"
  by (simp_all add: parse_index_def is_digit_def)

lemma hlookup_upd: "hlookup (upd k v kvs) k' = (if k' = k then v else hlookup kvs k')"
  by (induction kvs) (auto simp: hlookup_def)

lemma cell_get_set_named:
  "parse_index k' = None \<Longrightarrow> k' \<noteq> ''length'' \<Longrightarrow> k' \<noteq> k \<Longrightarrow>
   cell_get (cell_set_named c k x) k' = cell_get c k'"
  by (cases c) (auto simp: hlookup_upd)

lemma has_allOf_set_named: "k \<noteq> ''allOf'' \<Longrightarrow> has_allOf (cell_set_named c k x) = has_allOf c"
  by (simp add: has_allOf_def cell_get_set_named)

lemma pending_set_at: "k \<noteq> ''allOf'' \<Longrightarrow> pending (set_at h a k x) A = pending h A"
  unfolding pending_def set_at_def
  by (auto simp: nth_upd has_allOf_set_named cell_of_def)

lemma length_set_at [simp]: "length (set_at h a k x) = length h"
  by (simp add: set_at_def)

lemma resolve_item_store:
  "resolve_item root item h = (r, h') \<Longrightarrow> h' = h \<or> (\<exists>a c. h' = set_at h a ''$ref'' c)"
  unfolding resolve_item_def Let_def
  by (cases item) (auto split: if_splits)

lemma resolve_item_pending:
  "resolve_item root item h = (r, h') \<Longrightarrow> pending h' A = pending h A \<and> length h' = length h"
  using resolve_item_store[of root item h r h'] by (auto simp: pending_set_at)

lemma resolve_items_pending:
  "resolve_items root items h = (r, h') \<Longrightarrow> pending h' A = pending h A \<and> length h' = length h"
proof (induction items arbitrary: r h h')
  case Nil
  then show ?case by simp
next
  case (Cons item rest)
  obtain r1 h1 where r1: "resolve_item root item h = (r1, h1)" by (cases "resolve_item root item h")
  note p1 = resolve_item_pending[OF r1, of A]
  show ?case
  proof (cases r1)
    case None
    then show ?thesis using Cons.prems r1 p1 by simp
  next
    case (Some x)
    obtain r2 h2 where r2: "resolve_items root rest h1 = (r2, h2)" by (cases "resolve_items root rest h1")
    from Cons.IH[OF r2] have "pending h2 A = pending h1 A \<and> length h2 = length h1" .
    then show ?thesis using Cons.prems r1 r2 Some p1 by (auto split: option.splits)
  qed
qed


lemma keys_upd: "fst ` set (upd k v m) = insert k (fst ` set m)"
  by (induction m) (force split: if_splits)+

lemma set_upd: "set (upd k v m) \<subseteq> insert (k, v) (set m)"
  by (induction m) (auto split: if_splits)

lemma distinct_upd: "distinct (map fst m) \<Longrightarrow> distinct (map fst (upd k v m))"
proof (induction m)
  case Nil
  show ?case by simp
next
  case (Cons kx m)
  have "fst kx \<noteq> k \<Longrightarrow> fst kx \<notin> set (map fst (upd k v m))"
    using Cons.prems by (simp add: keys_upd)
  then show ?case using Cons by (cases kx) auto
qed

lemma wf_merged_upd:
  "wf_merged m \<Longrightarrow> k \<noteq> ''allOf'' \<Longrightarrow> (is_lprops v \<Longrightarrow> k = ''properties'') \<Longrightarrow> wf_merged (upd k v m)"
proof -
  assume wf: "wf_merged m" and k: "k \<noteq> ''allOf''" and p: "is_lprops v \<Longrightarrow> k = ''properties''"
  have "\<And>kx. kx \<in> set (upd k v m) \<Longrightarrow> is_lprops (snd kx) \<Longrightarrow> fst kx = ''properties''"
  proof -
    fix kx assume a: "kx \<in> set (upd k v m)" "is_lprops (snd kx)"
    then have "kx = (k, v) \<or> kx \<in> set m" using set_upd[of k v m] by auto
    then show "fst kx = ''properties''"
      using a(2) p wf by (auto simp: wf_merged_def list_all_iff split: if_splits)
  qed
  then show ?thesis
    using wf k unfolding wf_merged_def has_key_def list_all_iff
    by (auto simp: distinct_upd keys_upd)
qed

lemma wf_merged_Nil [simp]: "wf_merged []"
  by (simp add: wf_merged_def has_key_def)

lemma merge_key_wf: "wf_merged m \<Longrightarrow> merge_key h m kv = Inr m' \<Longrightarrow> wf_merged m'"
  unfolding merge_key_def Let_def
  by (auto intro!: wf_merged_upd split: if_splits option.splits lv.splits hv.splits)

lemma merge_keys_wf: "wf_merged m \<Longrightarrow> merge_keys h m kvs = Inr m' \<Longrightarrow> wf_merged m'"
proof (induction kvs arbitrary: m)
  case Nil
  then show ?case by simp
next
  case (Cons kv kvs)
  then show ?case
    by (cases "merge_key h m kv") (auto simp: bindE_def dest: merge_key_wf)
qed

lemma mergeSchema_wf: "wf_merged m \<Longrightarrow> mergeSchema h m src = Inr m' \<Longrightarrow> wf_merged m'"
  unfolding mergeSchema_def by (cases src) (auto dest: merge_keys_wf)


lemma cell_set_allOf:
  "cell_set c k x = Inr c' \<Longrightarrow> k \<noteq> ''allOf'' \<Longrightarrow> cell_get c' ''allOf'' = cell_get c ''allOf''"
  by (cases c) (auto simp: hlookup_upd split: option.splits if_splits hv.splits)

lemma pending_hset:
  assumes "hset h v k x = Inr h'" and "k \<noteq> ''allOf''"
  shows "pending h' A = pending h A \<and> length h' = length h"
proof (cases v)
  case (HRef s)
  from assms(1) HRef obtain c where c: "cell_set (cell_of h s) k x = Inr c" and h': "h' = h[s := c]"
    by (cases "cell_set (cell_of h s) k x") (auto simp: bindE_def)
  have "has_allOf c = has_allOf (cell_of h s)"
    using cell_set_allOf[OF c assms(2)] by (simp add: has_allOf_def)
  then show ?thesis unfolding h' pending_def
    by (auto simp: nth_upd cell_of_def)
qed (use assms in auto)

lemma pending_append:
  "pending (h @ [c]) A \<subseteq> insert (length h) (pending h A)"
  "\<not> has_allOf c \<Longrightarrow> pending (h @ [c]) A = pending h A"
  unfolding pending_def by (auto simp: nth_append less_Suc_eq)

lemma materialize_pending:
  "card (pending (snd (materialize h x)) A) \<le> card (pending h A) + (if is_lprops x then 1 else 0)
   \<and> length h \<le> length (snd (materialize h x))"
proof (cases x)
  case (LVal v)
  then show ?thesis by simp
next
  case (LProps ps)
  have "card (pending (h @ [Obj ps]) A) \<le> card (insert (length h) (pending h A))"
    by (rule card_mono) (simp_all add: pending_append(1))
  also have "\<dots> \<le> card (pending h A) + 1"
    by (simp add: card_insert_if)
  finally show ?thesis using LProps by simp
next
  case (LReq xs)
  have "\<not> has_allOf (Arr xs [])" by (simp add: has_allOf_def hlookup_def)
  then show ?thesis using LReq by (simp add: pending_append(2))
qed

lemma assign_merged_pending:
  "assign_merged h schema m = Inr h' \<Longrightarrow> \<not> has_key m ''allOf'' \<Longrightarrow>
   card (pending h' A) \<le> card (pending h A) + count_props m \<and> length h \<le> length h'"
proof (induction m arbitrary: h)
  case Nil
  then show ?case by (simp add: count_props_def)
next
  case (Cons kx rest)
  let ?h1 = "snd (materialize h (snd kx))"
  let ?v = "fst (materialize h (snd kx))"
  from Cons.prems(1) obtain h2 where h2: "hset ?h1 schema (fst kx) ?v = Inr h2"
    and rest: "assign_merged h2 schema rest = Inr h'"
    by (cases "hset ?h1 schema (fst kx) ?v") (auto simp: bindE_def)
  have k: "fst kx \<noteq> ''allOf''" and nk: "\<not> has_key rest ''allOf''"
    using Cons.prems(2) by (auto simp: has_key_def)
  note p2 = pending_hset[OF h2 k, of A]
  note p1 = materialize_pending[of h "snd kx" A]
  note p3 = Cons.IH[OF rest nk]
  show ?case using p1 p2 p3 by (auto simp: count_props_def)
qed

lemma has_allOf_clear [simp]: "\<not> has_allOf (clear_cell c)"
  by (cases c) (simp_all add: has_allOf_def hlookup_def)

lemma pending_clear: "pending (h[s := clear_cell c]) A = pending h (insert s A)"
  unfolding pending_def by (auto simp: nth_upd)

lemma pending_ensureSchemaType:
  "pending (ensureSchemaType h v) A = pending h A \<and> length (ensureSchemaType h v) = length h"
  unfolding ensureSchemaType_def by (cases v) (auto simp: pending_set_at)

lemma count_props_le1: "wf_merged m \<Longrightarrow> count_props m \<le> 1"
proof -
  assume wf: "wf_merged m"
  let ?f = "filter (\<lambda>kx. is_lprops (snd kx)) m"
  have d: "distinct (map fst ?f)" using wf by (simp add: wf_merged_def distinct_map_filter)
  have "set (map fst ?f) \<subseteq> {''properties''}" using wf by (auto simp: wf_merged_def list_all_iff split: if_splits)
  then have "card (set (map fst ?f)) \<le> 1"
    by (metis card.empty card_insert_if card_mono finite.emptyI finite.insertI le_SucI le_refl One_nat_def empty_iff)
  moreover have "card (set (map fst ?f)) = length (map fst ?f)" using d by (rule distinct_card)
  ultimately have "length (map fst ?f) \<le> 1" by linarith
  then show ?thesis by (simp add: count_props_def)
qed

lemma replace_keys_pending:
  assumes "replace_keys h s m = Inr h'" and "wf_merged m"
  shows "card (pending h' A) \<le> card (pending h (insert s A)) + 1 \<and> length h \<le> length h'"
proof -
  let ?h0 = "h[s := clear_cell (cell_of h s)]"
  from assms(1) obtain h3 where h3: "assign_merged ?h0 (HRef s) m = Inr h3"
    and h': "h' = ensureSchemaType h3 (HRef s)"
    unfolding replace_keys_def by (cases "assign_merged ?h0 (HRef s) m") (auto simp: bindE_def)
  have nk: "\<not> has_key m ''allOf''" using assms(2) by (simp add: wf_merged_def)
  note a = assign_merged_pending[OF h3 nk, of A]
  note c = count_props_le1[OF assms(2)]
  show ?thesis using a c unfolding h' by (simp add: pending_ensureSchemaType pending_clear)
qed


lemma pending_insert:
  "s < length h \<Longrightarrow> s \<notin> A \<Longrightarrow> has_allOf (h ! s) \<Longrightarrow>
   card (pending h (insert s A)) + 1 = card (pending h A)"
proof -
  assume a: "s < length h" "s \<notin> A" "has_allOf (h ! s)"
  have e: "pending h (insert s A) = pending h A - {s}" by (auto simp: pending_def)
  have "s \<in> pending h A" using a by (simp add: pending_def)
  then have "card (pending h A) = Suc (card (pending h A - {s}))"
    by (intro card.remove) simp_all
  then show ?thesis unfolding e by simp
qed

lemma guard_pending:
  "is_array h (hgetp h (HRef s) ''allOf'') \<Longrightarrow> s < length h \<and> has_allOf (h ! s)"
  by (auto simp: is_array_def has_allOf_def cell_of_def hlookup_def split: hv.splits if_splits)

lemma guard_ref:
  "is_array h (hgetp h schema ''allOf'') \<Longrightarrow> \<exists>s. schema = HRef s"
  by (cases schema) (auto simp: is_array_def)

lemma merge_items_inv:
  assumes flat: "\<And>schema root A h b A' h'.
      flattenAllOf n schema root (A, h) = Some (Inr (b, (A', h'))) \<Longrightarrow>
      A' = A \<and> card (pending h' A) \<le> card (pending h A) \<and> length h \<le> length h'"
  shows "wf_merged m \<Longrightarrow> merge_items n items root (A, h) m = Some (Inr (m', (A', h'))) \<Longrightarrow>
         A' = A \<and> card (pending h' A) \<le> card (pending h A) \<and> wf_merged m' \<and> length h \<le> length h'"
proof (induction items arbitrary: h m)
  case Nil
  then show ?case by simp
next
  case (Cons item items)
  let ?r = "if htruthy (hgetp h item ''allOf'') then flattenAllOf n item root (A, h)
            else Some (Inr (False, (A, h)))"
  from Cons.prems(2) obtain b A1 h1 where r: "?r = Some (Inr (b, (A1, h1)))"
    by (cases ?r) (auto split: sum.splits)
  have s1: "A1 = A \<and> card (pending h1 A) \<le> card (pending h A) \<and> length h \<le> length h1"
    using r flat by (auto split: if_splits)
  from Cons.prems(2) r obtain m1 where m1: "mergeSchema h1 m item = Inr m1"
    and rest: "merge_items n items root (A1, h1) m1 = Some (Inr (m', (A', h')))"
    by (cases "mergeSchema h1 m item") (auto split: if_splits)
  have wf1: "wf_merged m1" using mergeSchema_wf[OF Cons.prems(1) m1] .
  from rest s1 have rest': "merge_items n items root (A, h1) m1 = Some (Inr (m', (A', h')))" by simp
  from Cons.IH[OF wf1 rest'] s1
  show ?case by linarith
qed

lemma flattenAllOf_inv_step:
  assumes merge: "\<And>items root A h m m' A' h'. wf_merged m \<Longrightarrow>
      merge_items n items root (A, h) m = Some (Inr (m', (A', h'))) \<Longrightarrow>
      A' = A \<and> card (pending h' A) \<le> card (pending h A) \<and> wf_merged m' \<and> length h \<le> length h'"
    and run: "flattenAllOf (Suc n) schema root (A, h) = Some (Inr (b, (A', h')))"
  shows "A' = A \<and> card (pending h' A) \<le> card (pending h A) \<and> length h \<le> length h'"
proof (cases "\<not> htruthy schema \<or> \<not> is_array h (hgetp h schema ''allOf'')
              \<or> array_elems h (hgetp h schema ''allOf'') = []")
  case True
  then show ?thesis using run by (auto simp: Let_def)
next
  case False
  then obtain s where s: "schema = HRef s" using guard_ref by blast
  from False s have sp: "s < length h" "has_allOf (h ! s)" using guard_pending by auto
  show ?thesis
  proof (cases "s \<in> A")
    case True
    then show ?thesis using run False s by (auto simp: Let_def)
  next
    case notin: False
    obtain r h1 where ri: "resolve_items root (array_elems h (hgetp h schema ''allOf'')) h = (r, h1)"
      by (cases "resolve_items root (array_elems h (hgetp h schema ''allOf'')) h")
    note p1 = resolve_items_pending[OF ri]
    show ?thesis
    proof (cases r)
      case None
      then show ?thesis using run False s notin ri p1[of A] by (auto simp: Let_def)
    next
      case (Some items)
      from run False s notin ri Some obtain m0 where m0: "mergeSchema h1 [] schema = Inr m0"
        by (cases "mergeSchema h1 [] schema") (auto simp: Let_def)
      have wf0: "wf_merged m0" using mergeSchema_wf[OF wf_merged_Nil m0] .
      from run False s notin ri Some m0 obtain m A2 h2 where
        mi: "merge_items n items root (insert s A, h1) m0 = Some (Inr (m, (A2, h2)))"
        by (cases "merge_items n items root (insert s A, h1) m0") (auto simp: Let_def split: sum.splits)
      note i2 = merge[OF wf0 mi]
      from run False s notin ri Some m0 mi obtain h3 where
        rk: "replace_keys h2 s m = Inr h3" and res: "A' = A2 - {s}" "h' = h3" "b = True"
        by (cases "replace_keys h2 s m") (auto simp: Let_def)
      have wf: "wf_merged m" using i2 by simp
      note p3 = replace_keys_pending[OF rk wf, of A]
      have "card (pending h3 A) \<le> card (pending h1 (insert s A)) + 1" using p3 i2 by linarith
      also have "\<dots> = card (pending h (insert s A)) + 1" using p1[of "insert s A"] by simp
      also have "\<dots> = card (pending h A)" using pending_insert[OF sp(1) notin sp(2)] .
      finally have c: "card (pending h3 A) \<le> card (pending h A)" .
      have l: "length h \<le> length h3" using p1[of A] i2 p3 by linarith
      show ?thesis using res i2 notin c l by auto
    qed
  qed
qed

lemma flatten_merge_inv:
  "(\<forall>schema root A h b A' h'.
      flattenAllOf n schema root (A, h) = Some (Inr (b, (A', h'))) \<longrightarrow>
      A' = A \<and> card (pending h' A) \<le> card (pending h A) \<and> length h \<le> length h')"
proof (induction n)
  case 0
  show ?case by simp
next
  case (Suc n)
  show ?case
  proof (intro allI impI)
    fix schema root A h b A' h'
    assume run: "flattenAllOf (Suc n) schema root (A, h) = Some (Inr (b, (A', h')))"
    have merge: "\<And>items root A h m m' A' h'. wf_merged m \<Longrightarrow>
      merge_items n items root (A, h) m = Some (Inr (m', (A', h'))) \<Longrightarrow>
      A' = A \<and> card (pending h' A) \<le> card (pending h A) \<and> wf_merged m' \<and> length h \<le> length h'"
      using merge_items_inv[of n] Suc.IH by blast
    show "A' = A \<and> card (pending h' A) \<le> card (pending h A) \<and> length h \<le> length h'"
      using flattenAllOf_inv_step[OF merge run] .
  qed
qed

lemmas flattenAllOf_inv = flatten_merge_inv[rule_format]

lemma merge_items_inv':
  "wf_merged m \<Longrightarrow> merge_items n items root (A, h) m = Some (Inr (m', (A', h'))) \<Longrightarrow>
   A' = A \<and> card (pending h' A) \<le> card (pending h A) \<and> wf_merged m' \<and> length h \<le> length h'"
  using merge_items_inv[of n] flattenAllOf_inv by blast


lemma merge_items_term:
  assumes flat: "\<And>schema root A h. card (pending h A) < n \<Longrightarrow> flattenAllOf n schema root (A, h) \<noteq> None"
  shows "card (pending h A) < n \<Longrightarrow> merge_items n items root (A, h) m \<noteq> None"
proof (induction items arbitrary: h m)
  case Nil
  show ?case by simp
next
  case (Cons item items)
  let ?r = "if htruthy (hgetp h item ''allOf'') then flattenAllOf n item root (A, h)
            else Some (Inr (False, (A, h)))"
  have "?r \<noteq> None" using flat[OF Cons.prems] by simp
  then obtain res where res: "?r = Some res" by blast
  show ?case
  proof (cases res)
    case (Inl e)
    then show ?thesis using res by simp
  next
    case (Inr bst)
    obtain b A1 h1 where bst: "bst = (b, (A1, h1))" by (cases bst) auto
    have r: "?r = Some (Inr (b, (A1, h1)))" using res Inr bst by simp
    have s1: "A1 = A \<and> card (pending h1 A) \<le> card (pending h A)"
      using r flattenAllOf_inv[of n item root A h b A1 h1] by (auto split: if_splits)
    then have lt: "card (pending h1 A) < n" using Cons.prems by linarith
    show ?thesis
    proof (cases "mergeSchema h1 m item")
      case (Inl e)
      then show ?thesis using r by simp
    next
      case (Inr m1)
      then show ?thesis using r s1 Cons.IH[OF lt, of m1] by simp
    qed
  qed
qed

lemma flattenAllOf_term_step:
  assumes merge: "\<And>items root A h m. card (pending h A) < n \<Longrightarrow> merge_items n items root (A, h) m \<noteq> None"
    and lt: "card (pending h A) < Suc n"
  shows "flattenAllOf (Suc n) schema root (A, h) \<noteq> None"
proof (cases "\<not> htruthy schema \<or> \<not> is_array h (hgetp h schema ''allOf'')
              \<or> array_elems h (hgetp h schema ''allOf'') = []")
  case True
  then show ?thesis by (auto simp: Let_def)
next
  case False
  then obtain s where s: "schema = HRef s" using guard_ref by blast
  from False s have sp: "s < length h" "has_allOf (h ! s)" using guard_pending by auto
  show ?thesis
  proof (cases "s \<in> A")
    case True
    then show ?thesis using False s by (auto simp: Let_def)
  next
    case notin: False
    obtain r h1 where ri: "resolve_items root (array_elems h (hgetp h schema ''allOf'')) h = (r, h1)"
      by (cases "resolve_items root (array_elems h (hgetp h schema ''allOf'')) h")
    note p1 = resolve_items_pending[OF ri]
    show ?thesis
    proof (cases r)
      case None
      then show ?thesis using False s notin ri by (auto simp: Let_def)
    next
      case (Some items)
      show ?thesis
      proof (cases "mergeSchema h1 [] schema")
        case (Inl e)
        then show ?thesis using False s notin ri Some by (auto simp: Let_def)
      next
        case (Inr m0)
        have "card (pending h1 (insert s A)) + 1 = card (pending h A)"
          using p1[of "insert s A"] pending_insert[OF sp(1) notin sp(2)] by simp
        then have "card (pending h1 (insert s A)) < n" using lt by linarith
        from merge[OF this] have "merge_items n items root (insert s A, h1) m0 \<noteq> None" .
        then show ?thesis using False s notin ri Some Inr
          by (auto simp: Let_def split: sum.splits)
      qed
    qed
  qed
qed

lemma flattenAllOf_enough_fuel:
  "card (pending h A) < n \<Longrightarrow> flattenAllOf n schema root (A, h) \<noteq> None"
proof (induction n arbitrary: schema root A h)
  case 0
  then show ?case by simp
next
  case (Suc n)
  have merge: "\<And>items root A h m. card (pending h A) < n \<Longrightarrow> merge_items n items root (A, h) m \<noteq> None"
    using merge_items_term[of n] Suc.IH by blast
  show ?case using flattenAllOf_term_step[OF merge Suc.prems] .
qed

subsection \<open>The sanitizer is skipped on request\<close>

text \<open>
  Claim C9.  If \<open>sanitizeSwagger2\<close> is called with \<open>options.strict === false\<close>, or
  with a spec that is \<open>null\<close> or not an object, it returns its argument and leaves the
  store as it is: no key is deleted, no extension is stripped, no \<open>allOf\<close> is
  flattened.
\<close>

theorem sanitizeSwagger2_skipped:
  assumes "(options = Some opts \<and> opt_strict opts = HBool False) \<or> spec = HNull \<or> \<not> htypeof_object spec"
  shows "sanitizeSwagger2 n spec options h = Some (Inr (spec, h))"
  using assms by (cases spec) (auto simp: sanitizeSwagger2_def option_flag_def)

text \<open>
  The theorem at a schema with an extension, an example and an \<open>allOf\<close>, with
  \<open>strict: false\<close>, and at two specs that are not objects.
\<close>

theorem sanitizeSwagger2_skipped_witness:
  "sanitizeSwagger2 0 (HRef 0)
     (Some \<lparr>opt_strict = HBool False, opt_stripExtensions = HUndef\<rparr>)
     [Obj [(''x-internal'', HBool True), (''example'', HNum 1), (''allOf'', HRef 1)],
      Arr [HRef 2] [], Obj [(''type'', HStr ''string'')]]
   = Some (Inr (HRef 0,
     [Obj [(''x-internal'', HBool True), (''example'', HNum 1), (''allOf'', HRef 1)],
      Arr [HRef 2] [], Obj [(''type'', HStr ''string'')]]))
   \<and> sanitizeSwagger2 0 HNull None [] = Some (Inr (HNull, []))
   \<and> sanitizeSwagger2 0 (HStr ''doc'') None [] = Some (Inr (HStr ''doc'', []))"
  using sanitizeSwagger2_skipped[of "Some \<lparr>opt_strict = HBool False, opt_stripExtensions = HUndef\<rparr>"
          "\<lparr>opt_strict = HBool False, opt_stripExtensions = HUndef\<rparr>" "HRef 0" 0
          "[Obj [(''x-internal'', HBool True), (''example'', HNum 1), (''allOf'', HRef 1)],
            Arr [HRef 2] [], Obj [(''type'', HStr ''string'')]]"]
        sanitizeSwagger2_skipped[of None _ HNull 0 "[]"]
        sanitizeSwagger2_skipped[of None _ "HStr ''doc''" 0 "[]"]
  by simp

text \<open>With the default options the same store is changed.\<close>
lemma sanitizeSwagger2_runs:
  "sanitizeSwagger2 20 (HRef 0) None
     [Obj [(''x-internal'', HBool True), (''example'', HNum 1), (''allOf'', HRef 1)],
      Arr [HRef 2] [], Obj [(''type'', HStr ''string'')]]
   = Some (Inr (HRef 0,
     [Obj [(''type'', HStr ''string'')], Arr [HRef 2] [], Obj [(''type'', HStr ''string'')]]))"
  by code_simp

end
